theory Spec2Isabelle
  imports Complex_Main "HOL-Library.Multiset" "HOL-Library.Log_Nat"
begin

section \<open>predict_spring.py: ranking and reporting the classifier's output\<close>

text \<open>
  The script loads a saved model and a label table, decodes and preprocesses one image,
  runs one forward pass, and prints the top prediction followed by the five best classes.
  Its standard output is the list of the texts handed to \<open>print\<close>, one element for
  each call, in order; the process ends by returning from \<open>predict_image\<close>, by
  \<open>sys.exit\<close>, or by an exception that the handler at the bottom of the file turns
  into one more call of \<open>print\<close>.

  The entries of the prediction vector are float32 values. A finite float32 is a rational
  number, and the vector is a list of rationals: NaN and the infinities are outside the
  type, and so is the sign of a zero (the code prints \<open>-0.0\<close> for an entry that is
  negative zero). The product of an entry and 100 is a float32 again: it is rounded to
  the nearest float32, and it is infinite when it is too large.
\<close>

type_synonym score = rat

subsection \<open>How a call ends\<close>

text \<open>
  \<open>Returned\<close>: the function ran to its last line. \<open>Exited c\<close>: \<open>sys.exit(c)\<close>,
  which raises SystemExit, not an Exception, so that \<open>except Exception\<close> lets it
  through. \<open>Raised s\<close>: an Exception whose \<open>str\<close> is \<open>s\<close>.
\<close>

datatype outcome = Returned | Exited nat | Raised string

subsection \<open>Formatting: \<open>{i}\<close> and \<open>{x:.1f}\<close>\<close>

definition digit_char :: "nat \<Rightarrow> char" where
  "digit_char d = ''0123456789'' ! d"

function show_nat :: "nat \<Rightarrow> string" where
  "show_nat n =
     (if n < 10 then [digit_char n] else show_nat (n div 10) @ [digit_char (n mod 10)])"
  by pat_completeness auto
termination
  by (relation "measure id") auto

declare show_nat.simps [simp del]

text \<open>
  Rounding to the nearest integer, a tie going to the even neighbour: the rule of the
  correctly rounded decimal conversion behind \<open>.1f\<close>.
\<close>

definition round_half_even :: "rat \<Rightarrow> int" where
  "round_half_even q =
     (let f = \<lfloor>q\<rfloor>; d = q - of_int f
      in if d < 1 / 2 then f else if 1 / 2 < d then f + 1 else if even f then f else f + 1)"

text \<open>
  The number of tenths that \<open>.1f\<close> prints for a value of magnitude \<open>y\<close>.
\<close>

definition tenths :: "rat \<Rightarrow> nat" where
  "tenths y = nat (round_half_even (y * 10))"

subsection \<open>The float32 product\<close>

text \<open>
  The result of a float32 operation on finite operands: a sign bit (\<open>True\<close> for
  minus) with a magnitude, or an infinity with its sign.
\<close>

datatype f32 = Finite bool rat | Infinite bool

text \<open>
  The exponent of a positive rational \<open>a\<close>: the integer \<open>e\<close> with
  \<open>2 powi e \<le> a < 2 powi (e + 1)\<close>, from the bit lengths of numerator and
  denominator.
\<close>

definition floor_log2 :: "rat \<Rightarrow> int" where
  "floor_log2 a =
     (let (n, d) = quotient_of a; g = bitlen n - bitlen d
      in if 2 powi g \<le> a then g else g - 1)"

text \<open>
  Rounding to float32, to nearest with ties to even: 24 significant bits, the spacing
  never below \<open>2 powi (- 149)\<close> (the subnormal range), and an infinity once the
  rounded magnitude reaches \<open>2 ^ 128\<close>. The sign is that of the exact value.
\<close>

definition round_f32 :: "rat \<Rightarrow> f32" where
  "round_f32 x =
     (if x = 0 then Finite False 0
      else
        let a = \<bar>x\<bar>;
            q = max (floor_log2 a - 23) (- 149);
            y = of_int (round_half_even (a / 2 powi q)) * 2 powi q
        in if 2 ^ 128 \<le> y then Infinite (x < 0) else Finite (x < 0) y)"

text \<open>
  \<open>predictions[idx] * 100\<close>: a float32 scalar times a Python int is a float32.
\<close>

definition mul100 :: "score \<Rightarrow> f32" where
  "mul100 p = round_f32 (p * 100)"

text \<open>
  \<open>format(x, '.1f')\<close> of a float32, which is converted to a double without change:
  a minus sign when the sign bit is set (also when the value rounds to zero:
  \<open>-0.0\<close>), the integer part, a point, one digit; \<open>inf\<close> or \<open>-inf\<close> for an
  infinity.
\<close>

fun fmt_1f :: "f32 \<Rightarrow> string" where
  "fmt_1f (Finite s y) =
     (if s then ''-'' else '''') @ show_nat (tenths y div 10) @ ''.'' @
       [digit_char (tenths y mod 10)]"
| "fmt_1f (Infinite s) = (if s then ''-inf'' else ''inf'')"

subsection \<open>The library calls on the prediction vector\<close>

text \<open>
  \<open>np.argmax\<close>: the scan of the array that keeps the first position of the largest
  value; a ValueError on an empty array.
\<close>

fun argmax_loop :: "score list \<Rightarrow> nat \<Rightarrow> score \<Rightarrow> nat \<Rightarrow> nat" where
  "argmax_loop [] i mp max_ind = max_ind"
| "argmax_loop (x # xs) i mp max_ind =
     (if mp < x then argmax_loop xs (Suc i) x i else argmax_loop xs (Suc i) mp max_ind)"

definition argmax :: "score list \<Rightarrow> string + nat" where
  "argmax predictions =
     (case predictions of
        [] \<Rightarrow> Inl ''attempt to get argmax of an empty sequence''
      | x # xs \<Rightarrow> Inr (argmax_loop xs 1 x 0))"

text \<open>
  \<open>np.argsort\<close> with its default kind returns the positions of the array in an order
  that makes the values ascend; which of two equal values comes first is not fixed by the
  library. The program is therefore given its sort as a parameter, and \<open>argsort_ok\<close>
  is what every sort of the library satisfies.
\<close>

definition argsort_ok :: "(score list \<Rightarrow> nat list) \<Rightarrow> bool" where
  "argsort_ok srt \<longleftrightarrow>
     (\<forall>ps. mset (srt ps) = mset [0..<length ps] \<and> sorted (map (\<lambda>i. ps ! i) (srt ps)))"

text \<open>
  One such sort: insertion sort on the positions, which keeps equal values in their
  order of position.
\<close>

definition argsort_stable :: "score list \<Rightarrow> nat list" where
  "argsort_stable ps = sort_key (\<lambda>i. ps ! i) [0..<length ps]"

text \<open>\<open>xs[-5:]\<close>: the last five elements, all of them when there are fewer.\<close>

definition last5 :: "'a list \<Rightarrow> 'a list" where
  "last5 xs = drop (length xs - 5) xs"

text \<open>\<open>np.argsort(predictions)[-5:][::-1]\<close>\<close>

definition top_indices :: "(score list \<Rightarrow> nat list) \<Rightarrow> score list \<Rightarrow> nat list" where
  "top_indices srt predictions = rev (last5 (srt predictions))"

text \<open>Indexing the label list and the prediction vector by a position.\<close>

definition list_getitem :: "'a list \<Rightarrow> nat \<Rightarrow> string + 'a" where
  "list_getitem xs i =
     (if i < length xs then Inr (xs ! i) else Inl ''list index out of range'')"

definition ndarray_getitem :: "score list \<Rightarrow> nat \<Rightarrow> string + score" where
  "ndarray_getitem ps i =
     (if i < length ps then Inr (ps ! i)
      else Inl (''index '' @ show_nat i @ '' is out of bounds for axis 0 with size '' @
                show_nat (length ps)))"

subsection \<open>The report (lines 34 to 46)\<close>

definition top_line :: "string \<Rightarrow> score \<Rightarrow> string" where
  "top_line top_cls p = ''Top prediction: '' @ top_cls @ '' ('' @ fmt_1f (mul100 p) @ ''%)''"

definition ranked_line :: "nat \<Rightarrow> string \<Rightarrow> score \<Rightarrow> string" where
  "ranked_line i name p = show_nat i @ ''. '' @ name @ '': '' @ fmt_1f (mul100 p) @ ''%''"

text \<open>
  The \<open>for\<close> loop over \<open>enumerate(top_indices, 1)\<close>. Each line is built before it is
  printed, the label first, so that a failing lookup ends the loop with the lines printed
  so far.
\<close>

fun print_ranked ::
  "string list \<Rightarrow> score list \<Rightarrow> (nat \<times> nat) list \<Rightarrow> string list \<Rightarrow> string list \<times> outcome"
where
  "print_ranked class_names predictions [] out = (out, Returned)"
| "print_ranked class_names predictions ((i, idx) # rest) out =
     (case list_getitem class_names idx of
        Inl e \<Rightarrow> (out, Raised e)
      | Inr name \<Rightarrow>
          (case ndarray_getitem predictions idx of
             Inl e \<Rightarrow> (out, Raised e)
           | Inr p \<Rightarrow>
               print_ranked class_names predictions rest (out @ [ranked_line i name p])))"

definition report ::
  "(score list \<Rightarrow> nat list) \<Rightarrow> string list \<Rightarrow> score list \<Rightarrow> string list \<times> outcome"
where
  "report srt class_names predictions =
     (case argmax predictions of
        Inl e \<Rightarrow> ([], Raised e)
      | Inr top_idx \<Rightarrow>
          (case list_getitem class_names top_idx of
             Inl e \<Rightarrow> ([], Raised e)
           | Inr top_cls \<Rightarrow>
               (case ndarray_getitem predictions top_idx of
                  Inl e \<Rightarrow> ([], Raised e)
                | Inr p \<Rightarrow>
                    print_ranked class_names predictions
                      (enumerate 1 (top_indices srt predictions))
                      [top_line top_cls p, ''All predictions:''])))"

subsection \<open>The pipeline and the entry point\<close>

text \<open>
  What the process finds around it: the saved model with its serving signature (lines 11
  and 12), the label file (15 and 16), the image decoder (19), the colour conversion,
  resize and normalisation (24 to 27), and the forward pass with the selection of the
  first output's first row (30 to 32). Each either gives its result or raises; the decoder
  gives \<open>None\<close> for a file that is missing or is no image.
\<close>

record ('sig, 'img, 'ten) env =
  saved_model :: "string + 'sig"
  class_file :: "string + string list"
  imread :: "string \<Rightarrow> 'img option"
  preprocess :: "'img \<Rightarrow> string + 'ten"
  infer :: "'sig \<Rightarrow> 'ten \<Rightarrow> string + score list"

definition predict_image ::
  "(score list \<Rightarrow> nat list) \<Rightarrow> ('sig, 'img, 'ten) env \<Rightarrow> string \<Rightarrow> string list \<times> outcome"
where
  "predict_image srt e image_path =
     (case saved_model e of
        Inl x \<Rightarrow> ([], Raised x)
      | Inr sg \<Rightarrow>
          (case class_file e of
             Inl x \<Rightarrow> ([], Raised x)
           | Inr class_names \<Rightarrow>
               (case imread e image_path of
                  None \<Rightarrow> ([''Error: Could not read image''], Exited 1)
                | Some img \<Rightarrow>
                    (case preprocess e img of
                       Inl x \<Rightarrow> ([], Raised x)
                     | Inr img_array \<Rightarrow>
                         (case infer e sg img_array of
                            Inl x \<Rightarrow> ([], Raised x)
                          | Inr predictions \<Rightarrow> report srt class_names predictions)))))"

text \<open>
  The \<open>__main__\<close> block: standard output and the exit code of the process, from
  \<open>sys.argv\<close>.
\<close>

definition main ::
  "(score list \<Rightarrow> nat list) \<Rightarrow> ('sig, 'img, 'ten) env \<Rightarrow> string list \<Rightarrow> string list \<times> nat"
where
  "main srt e argv =
     (if length argv < 2 then ([''Error: No image path provided''], 1)
      else
        (case predict_image srt e (argv ! 1) of
           (out, Returned) \<Rightarrow> (out, 0)
         | (out, Exited c) \<Rightarrow> (out, c)
         | (out, Raised x) \<Rightarrow> (out @ [''Error: '' @ x], 1)))"

subsection \<open>Closed forms and fixtures\<close>

text \<open>
  The lines that the loop prints when every lookup succeeds: one \<open>ranked_line\<close> for
  each pair of rank and position.
\<close>

definition ranked_lines :: "string list \<Rightarrow> score list \<Rightarrow> (nat \<times> nat) list \<Rightarrow> string list" where
  "ranked_lines cs ps ixs = map (\<lambda>(i, idx). ranked_line i (cs ! idx) (ps ! idx)) ixs"

text \<open>
  A small installation for concrete runs: five labels, a model that answers every image
  with the same five scores, and one readable image, \<open>dish.jpg\<close>.
\<close>

definition example_env :: "(unit, unit, unit) env" where
  "example_env =
     \<lparr>saved_model = Inr (),
      class_file = Inr [''a'', ''b'', ''c'', ''d'', ''e''],
      imread = (\<lambda>p. if p = ''dish.jpg'' then Some () else None),
      preprocess = (\<lambda>_. Inr ()),
      infer = (\<lambda>_ _. Inr [1 / 2, 1 / 4, 1 / 8, 1 / 16, 1 / 16])\<rparr>"


section \<open>Facts about the library calls\<close>


lemma argmax_loop_props:
  assumes "k < length pre" and "pre ! k = mp" and "\<forall>x\<in>set pre. x \<le> mp"
    and "\<forall>j<k. pre ! j < mp" and "i = length pre"
  shows "argmax_loop xs i mp k < length (pre @ xs) \<and>
         (\<forall>x\<in>set (pre @ xs). x \<le> (pre @ xs) ! argmax_loop xs i mp k) \<and>
         (\<forall>j<argmax_loop xs i mp k. (pre @ xs) ! j < (pre @ xs) ! argmax_loop xs i mp k)"
  using assms
proof (induction xs arbitrary: pre mp k i)
  case Nil
  then show ?case by simp
next
  case (Cons x xs)
  show ?case
  proof (cases "mp < x")
    case True
    have a: "i < length (pre @ [x])" using Cons.prems by simp
    have b: "(pre @ [x]) ! i = x" using Cons.prems by simp
    have c: "\<forall>y\<in>set (pre @ [x]). y \<le> x" using Cons.prems True by auto
    have d: "\<forall>j<i. (pre @ [x]) ! j < x"
    proof (intro allI impI)
      fix j assume "j < i"
      then have "pre ! j \<in> set pre" using Cons.prems by simp
      then have "pre ! j \<le> mp" using Cons.prems by blast
      then have "pre ! j < x" using True by simp
      then show "(pre @ [x]) ! j < x" using \<open>j < i\<close> Cons.prems by (simp add: nth_append)
    qed
    have e: "Suc i = length (pre @ [x])" using Cons.prems by simp
    from Cons.IH[OF a b c d e] True show ?thesis by simp
  next
    case False
    have a: "k < length (pre @ [x])" using Cons.prems by simp
    have b: "(pre @ [x]) ! k = mp" using Cons.prems by (simp add: nth_append)
    have c: "\<forall>y\<in>set (pre @ [x]). y \<le> mp" using Cons.prems False by auto
    have d: "\<forall>j<k. (pre @ [x]) ! j < mp" using Cons.prems by (simp add: nth_append)
    have e: "Suc i = length (pre @ [x])" using Cons.prems by simp
    from Cons.IH[OF a b c d e] False show ?thesis by simp
  qed
qed

lemma argmax_nonempty:
  assumes "ps \<noteq> []"
  obtains k where "argmax ps = Inr k" and "k < length ps"
    and "\<forall>x\<in>set ps. x \<le> ps ! k" and "\<forall>j<k. ps ! j < ps ! k"
proof -
  from assms obtain x xs where ps: "ps = x # xs" by (cases ps) auto
  have "argmax_loop xs 1 x 0 < length ([x] @ xs) \<and>
         (\<forall>y\<in>set ([x] @ xs). y \<le> ([x] @ xs) ! argmax_loop xs 1 x 0) \<and>
         (\<forall>j<argmax_loop xs 1 x 0. ([x] @ xs) ! j < ([x] @ xs) ! argmax_loop xs 1 x 0)"
    by (rule argmax_loop_props) simp_all
  then show ?thesis using that[of "argmax_loop xs 1 x 0"] by (simp add: ps argmax_def)
qed

lemma argmax_empty: "argmax [] = Inl ''attempt to get argmax of an empty sequence''"
  by (simp add: argmax_def)

lemma argmax_is_Max:
  assumes "argmax ps = Inr k"
  shows "k < length ps \<and> ps ! k = Max (set ps) \<and> (\<forall>j<k. ps ! j < ps ! k)"
proof -
  have ne: "ps \<noteq> []" using assms by (auto simp: argmax_def)
  then obtain k' where k': "argmax ps = Inr k'" "k' < length ps"
    "\<forall>x\<in>set ps. x \<le> ps ! k'" "\<forall>j<k'. ps ! j < ps ! k'"
    by (rule argmax_nonempty)
  then have kk: "k' = k" using assms by simp
  have "Max (set ps) = ps ! k"
    using k' kk by (intro Max_eqI) auto
  then show ?thesis using k' kk by simp
qed

lemma argsort_ok_set: "argsort_ok srt \<Longrightarrow> set (srt ps) = {0..<length ps}"
  unfolding argsort_ok_def by (metis mset_eq_setD set_upt)

lemma argsort_ok_length: "argsort_ok srt \<Longrightarrow> length (srt ps) = length ps"
  unfolding argsort_ok_def by (metis mset_eq_length length_upt diff_zero)

lemma argsort_ok_scores:
  assumes "argsort_ok srt"
  shows "map (\<lambda>i. ps ! i) (srt ps) = sort ps"
proof -
  have "mset (map (\<lambda>i. ps ! i) (srt ps)) = image_mset (\<lambda>i. ps ! i) (mset [0..<length ps])"
    using assms unfolding argsort_ok_def by (metis mset_map)
  also have "\<dots> = mset (map (\<lambda>i. ps ! i) [0..<length ps])" by simp
  also have "\<dots> = mset ps" by (simp add: map_nth)
  finally have m: "mset (map (\<lambda>i. ps ! i) (srt ps)) = mset ps" .
  have s: "sorted (map (\<lambda>i. ps ! i) (srt ps))"
    using assms unfolding argsort_ok_def by blast
  show ?thesis using properties_for_sort[OF m s] by simp
qed

lemma argsort_stable_ok: "argsort_ok argsort_stable"
  unfolding argsort_ok_def argsort_stable_def
  by simp

section \<open>Facts about the loop and the selection\<close>



lemma print_ranked_in_range:
  assumes "\<forall>(i, idx)\<in>set ixs. idx < length cs \<and> idx < length ps"
  shows "print_ranked cs ps ixs out = (out @ ranked_lines cs ps ixs, Returned)"
  using assms
proof (induction ixs arbitrary: out)
  case Nil
  then show ?case by (simp add: ranked_lines_def)
next
  case (Cons a ixs)
  obtain i idx where a: "a = (i, idx)" by (cases a)
  have r: "idx < length cs" "idx < length ps" using Cons.prems a by auto
  have "\<forall>(i, idx)\<in>set ixs. idx < length cs \<and> idx < length ps" using Cons.prems by simp
  from Cons.IH[OF this] show ?case
    using r by (simp add: a list_getitem_def ndarray_getitem_def ranked_lines_def)
qed

lemma print_ranked_Returned:
  assumes "print_ranked cs ps ixs out = (out', Returned)"
  shows "(\<forall>(i, idx)\<in>set ixs. idx < length cs \<and> idx < length ps) \<and>
         out' = out @ ranked_lines cs ps ixs"
  using assms
proof (induction ixs arbitrary: out)
  case Nil
  then show ?case by (simp add: ranked_lines_def)
next
  case (Cons a ixs)
  obtain i idx where a: "a = (i, idx)" by (cases a)
  from Cons.prems have r: "idx < length cs" "idx < length ps"
    by (auto simp: a list_getitem_def ndarray_getitem_def split: if_splits)
  with Cons.prems have "print_ranked cs ps ixs (out @ [ranked_line i (cs ! idx) (ps ! idx)]) = (out', Returned)"
    by (simp add: a list_getitem_def ndarray_getitem_def)
  from Cons.IH[OF this] show ?case using r by (simp add: a ranked_lines_def)
qed

lemma print_ranked_prefix:
  "\<exists>n\<le>length ixs. fst (print_ranked cs ps ixs out) = out @ ranked_lines cs ps (take n ixs) \<and>
     (\<forall>(i, idx)\<in>set (take n ixs). idx < length cs \<and> idx < length ps)"
proof (induction ixs arbitrary: out)
  case Nil
  then show ?case by (simp add: ranked_lines_def)
next
  case (Cons a ixs)
  obtain i idx where a: "a = (i, idx)" by (cases a)
  show ?case
  proof (cases "idx < length cs \<and> idx < length ps")
    case True
    from Cons.IH[of "out @ [ranked_line i (cs ! idx) (ps ! idx)]"]
    obtain n where n: "n \<le> length ixs"
      "fst (print_ranked cs ps ixs (out @ [ranked_line i (cs ! idx) (ps ! idx)])) =
         (out @ [ranked_line i (cs ! idx) (ps ! idx)]) @ ranked_lines cs ps (take n ixs)"
      "\<forall>(i, idx)\<in>set (take n ixs). idx < length cs \<and> idx < length ps"
      by blast
    show ?thesis
      by (rule exI[of _ "Suc n"])
         (use n True in \<open>simp add: a list_getitem_def ndarray_getitem_def ranked_lines_def\<close>)
  next
    case False
    show ?thesis
      by (rule exI[of _ 0])
         (use False in \<open>auto simp add: a list_getitem_def ndarray_getitem_def ranked_lines_def\<close>)
  qed
qed

lemma print_ranked_not_Exited: "snd (print_ranked cs ps ixs out) \<noteq> Exited c"
  by (induction ixs arbitrary: out)
     (auto simp: list_getitem_def ndarray_getitem_def split: sum.splits)

lemma enumerate_snd: "snd ` set (enumerate n xs) = set xs"
proof -
  have "set (map snd (enumerate n xs)) = set xs" by (simp only: map_snd_enumerate)
  then show ?thesis by (simp only: set_map)
qed

lemma length_last5: "length (last5 xs) = min 5 (length xs)"
  by (auto simp: last5_def)

lemma set_last5: "set (last5 xs) \<subseteq> set xs"
  by (simp add: last5_def set_drop_subset)

lemma length_top_indices:
  "argsort_ok srt \<Longrightarrow> length (top_indices srt ps) = min 5 (length ps)"
  by (simp add: top_indices_def length_last5 argsort_ok_length)

lemma top_indices_in_range:
  assumes "argsort_ok srt" and "idx \<in> set (top_indices srt ps)"
  shows "idx < length ps"
proof -
  have "idx \<in> set (srt ps)" using assms(2) set_last5[of "srt ps"] by (auto simp: top_indices_def)
  then show ?thesis using argsort_ok_set[OF assms(1), of ps] by simp
qed

lemma top_indices_scores:
  assumes "argsort_ok srt"
  shows "map (\<lambda>i. ps ! i) (top_indices srt ps) = take 5 (rev (sort ps))"
proof -
  have "map (\<lambda>i. ps ! i) (top_indices srt ps) =
          rev (drop (length ps - 5) (map (\<lambda>i. ps ! i) (srt ps)))"
    by (simp add: top_indices_def last5_def rev_map drop_map argsort_ok_length[OF assms])
  also have "\<dots> = rev (drop (length ps - 5) (sort ps))"
    by (simp only: argsort_ok_scores[OF assms])
  also have "\<dots> = take (length ps - (length ps - 5)) (rev (sort ps))"
    by (simp add: rev_drop)
  also have "\<dots> = take 5 (rev (sort ps))"
    by (cases "5 \<le> length ps") simp_all
  finally show ?thesis .
qed

section \<open>Facts about the report\<close>


lemma sorted_last_Max:
  assumes "sorted (xs :: rat list)" and "xs \<noteq> []"
  shows "last xs = Max (set xs)"
proof -
  have "\<forall>y\<in>set xs. y \<le> last xs"
  proof
    fix y assume "y \<in> set xs"
    then obtain i where i: "i < length xs" "xs ! i = y" by (auto simp: in_set_conv_nth)
    have "xs ! i \<le> xs ! (length xs - 1)"
      using assms(1) i(1) by (intro sorted_nth_mono) auto
    then show "y \<le> last xs" using i assms(2) by (simp add: last_conv_nth)
  qed
  then show ?thesis using assms(2) by (intro Max_eqI[symmetric]) auto
qed

lemma report_Returned:
  assumes "report srt cs ps = (out, Returned)"
  obtains k where "argmax ps = Inr k" and "k < length cs" and "k < length ps"
    and "\<forall>idx\<in>set (top_indices srt ps). idx < length cs \<and> idx < length ps"
    and "out = top_line (cs ! k) (ps ! k) # ''All predictions:'' #
                 ranked_lines cs ps (enumerate 1 (top_indices srt ps))"
proof -
  from assms obtain k where k: "argmax ps = Inr k"
    by (auto simp: report_def split: sum.splits)
  from assms k have kc: "k < length cs"
    by (auto simp: report_def list_getitem_def split: sum.splits if_splits)
  from assms k kc have kp: "k < length ps"
    by (auto simp: report_def list_getitem_def ndarray_getitem_def split: sum.splits if_splits)
  from assms k kc kp have pr: "print_ranked cs ps (enumerate 1 (top_indices srt ps))
      [top_line (cs ! k) (ps ! k), ''All predictions:''] = (out, Returned)"
    by (simp add: report_def list_getitem_def ndarray_getitem_def)
  from print_ranked_Returned[OF pr]
  have a: "\<forall>(i, idx)\<in>set (enumerate 1 (top_indices srt ps)). idx < length cs \<and> idx < length ps"
    and b: "out = [top_line (cs ! k) (ps ! k), ''All predictions:''] @
                 ranked_lines cs ps (enumerate 1 (top_indices srt ps))"
    by blast+
  have "\<forall>idx\<in>snd ` set (enumerate 1 (top_indices srt ps)). idx < length cs \<and> idx < length ps"
    using a by auto
  then have c: "\<forall>idx\<in>set (top_indices srt ps). idx < length cs \<and> idx < length ps"
    by (simp only: enumerate_snd)
  show ?thesis using that[OF k kc kp c] b by simp
qed

lemma report_in_range:
  assumes "argsort_ok srt" and "ps \<noteq> []" and "length ps \<le> length cs"
  obtains k where "argmax ps = Inr k" and "k < length ps"
    and "report srt cs ps =
           (top_line (cs ! k) (ps ! k) # ''All predictions:'' #
              ranked_lines cs ps (enumerate 1 (top_indices srt ps)), Returned)"
proof -
  from assms(2) obtain k where k: "argmax ps = Inr k" "k < length ps"
    by (rule argmax_nonempty)
  have "\<forall>idx\<in>set (top_indices srt ps). idx < length cs \<and> idx < length ps"
    using top_indices_in_range[OF assms(1), of _ ps] assms(3) by fastforce
  then have "\<forall>idx\<in>snd ` set (enumerate 1 (top_indices srt ps)). idx < length cs \<and> idx < length ps"
    by (simp only: enumerate_snd)
  then have "\<forall>(i, idx)\<in>set (enumerate 1 (top_indices srt ps)). idx < length cs \<and> idx < length ps"
    by force
  from print_ranked_in_range[OF this]
  have "report srt cs ps =
           (top_line (cs ! k) (ps ! k) # ''All predictions:'' #
              ranked_lines cs ps (enumerate 1 (top_indices srt ps)), Returned)"
    using k assms(3) by (simp add: report_def list_getitem_def ndarray_getitem_def)
  then show ?thesis using that k by blast
qed

lemma report_empty:
  "report srt cs [] = ([], Raised ''attempt to get argmax of an empty sequence'')"
  by (simp add: report_def argmax_def)

lemma report_not_Exited: "snd (report srt cs ps) \<noteq> Exited c"
  using print_ranked_not_Exited
  by (auto simp: report_def split: sum.splits)

lemma top_indices_hd:
  assumes "argsort_ok srt" and "ps \<noteq> []"
  shows "top_indices srt ps \<noteq> []" and "ps ! hd (top_indices srt ps) = Max (set ps)"
proof -
  have len: "length (top_indices srt ps) = min 5 (length ps)"
    by (rule length_top_indices[OF assms(1)])
  have "0 < length ps" using assms(2) by simp
  then have "0 < length (top_indices srt ps)" using len by simp
  then show ne: "top_indices srt ps \<noteq> []" by simp
  have "ps ! hd (top_indices srt ps) = hd (map (\<lambda>i. ps ! i) (top_indices srt ps))"
    using ne by (simp add: hd_map)
  also have "\<dots> = hd (take 5 (rev (sort ps)))"
    by (simp only: top_indices_scores[OF assms(1)])
  also have "\<dots> = last (sort ps)" by (simp add: hd_rev)
  also have "\<dots> = Max (set (sort ps))"
  proof (rule sorted_last_Max)
    show "sorted (sort ps)" by simp
    have "length (sort ps) = length ps" by simp
    then show "sort ps \<noteq> []" using assms(2) by (metis length_0_conv)
  qed
  finally show "ps ! hd (top_indices srt ps) = Max (set ps)" by simp
qed

section \<open>Facts about the formatting\<close>

lemma show_nat_small:
  "show_nat 1 = ''1''" "show_nat 2 = ''2''" "show_nat 3 = ''3''" "show_nat 4 = ''4''"
  "show_nat 5 = ''5''" "show_nat (Suc 0) = ''1''"
  by (simp_all add: show_nat.simps digit_char_def)

lemma digit_char_digit: "d < 10 \<Longrightarrow> digit_char d \<in> set ''0123456789''"
  unfolding digit_char_def by (rule nth_mem) simp

lemma show_nat_digits: "show_nat n \<noteq> [] \<and> set (show_nat n) \<subseteq> set ''0123456789''"
proof (induction n rule: show_nat.induct)
  case (1 n)
  show ?case
  proof (cases "n < 10")
    case True
    then have "show_nat n = [digit_char n]" by (subst show_nat.simps) simp
    then show ?thesis using digit_char_digit[OF True] by simp
  next
    case False
    then have eq: "show_nat n = show_nat (n div 10) @ [digit_char (n mod 10)]"
      by (subst show_nat.simps) simp
    have "n mod 10 < 10" by simp
    from digit_char_digit[OF this] "1.IH"[OF False] show ?thesis
      unfolding eq by simp
  qed
qed

lemma round_half_even_bounds:
  assumes "0 \<le> q" and "q \<le> of_int m"
  shows "0 \<le> round_half_even q \<and> round_half_even q \<le> m"
proof -
  have f0: "0 \<le> \<lfloor>q\<rfloor>" using assms(1) by simp
  have "\<lfloor>q\<rfloor> \<le> \<lfloor>(of_int m :: rat)\<rfloor>" using assms(2) by (rule floor_mono)
  then have fm: "\<lfloor>q\<rfloor> \<le> m" by simp
  show ?thesis
  proof (cases "\<lfloor>q\<rfloor> = m")
    case True
    then have "q - of_int \<lfloor>q\<rfloor> \<le> 0" using assms(2) by simp
    then have "round_half_even q = \<lfloor>q\<rfloor>" by (simp add: round_half_even_def Let_def)
    then show ?thesis using f0 fm by simp
  next
    case False
    then have "\<lfloor>q\<rfloor> + 1 \<le> m" using fm by simp
    moreover have "round_half_even q = \<lfloor>q\<rfloor> \<or> round_half_even q = \<lfloor>q\<rfloor> + 1"
      by (simp add: round_half_even_def Let_def)
    ultimately show ?thesis using f0 by auto
  qed
qed

lemma floor_log2_le:
  assumes "0 < a"
  shows "2 powi floor_log2 a \<le> a"
proof -
  obtain n d where q: "quotient_of a = (n, d)" by (cases "quotient_of a")
  have d: "0 < d" using quotient_of_denom_pos[OF q] .
  have a: "a = of_int n / of_int d" using quotient_of_div[OF q] .
  have n: "0 < n" using assms d unfolding a by (simp add: zero_less_divide_iff)
  let ?g = "bitlen n - bitlen d"
  have lo: "2 ^ nat (bitlen n - 1) \<le> n" using bitlen_bounds[OF n] by blast
  have hi: "d < 2 ^ nat (bitlen d)" using bitlen_bounds[OF d] by blast
  have bn: "1 \<le> bitlen n" using n by (simp add: bitlen_alt_def)
  have bd: "0 \<le> bitlen d" by (rule bitlen_nonneg)
  have e: "?g - 1 = (bitlen n - 1) - bitlen d" by linarith
  have "(2::rat) powi ((bitlen n - 1) - bitlen d) = 2 powi (bitlen n - 1) / 2 powi bitlen d"
    by (rule power_int_diff) simp
  then have "(2::rat) powi (?g - 1) = 2 powi (bitlen n - 1) / 2 powi bitlen d"
    by (simp only: e)
  also have "\<dots> = 2 ^ nat (bitlen n - 1) / 2 ^ nat (bitlen d)"
    using bn bd by (simp add: power_int_def)
  also have "\<dots> \<le> of_int n / of_int d"
  proof -
    have 1: "(2::rat) ^ nat (bitlen n - 1) \<le> of_int n"
      using lo by (metis of_int_le_iff of_int_numeral of_int_power)
    have 2: "(of_int d :: rat) \<le> 2 ^ nat (bitlen d)"
      using hi by (metis less_imp_le of_int_le_iff of_int_numeral of_int_power)
    have 3: "(0::rat) < of_int d" using d by simp
    show ?thesis by (rule frac_le[OF _ 1 3 2]) (use n in simp)
  qed
  finally have low: "(2::rat) powi (?g - 1) \<le> a" unfolding a .
  show ?thesis
    using low by (simp add: floor_log2_def q Let_def)
qed

lemma floor_log2_less_7:
  assumes "0 < a" and "a \<le> 100"
  shows "floor_log2 a < 7"
proof (rule ccontr)
  assume "\<not> floor_log2 a < 7"
  then have "7 \<le> floor_log2 a" by simp
  then have "(2::rat) powi 7 \<le> 2 powi floor_log2 a"
    by (rule power_int_increasing) simp
  also have "\<dots> \<le> a" by (rule floor_log2_le[OF assms(1)])
  finally show False using assms(2) by simp
qed

lemma round_f32_percent:
  assumes "0 \<le> x" and "x \<le> 100"
  shows "\<exists>y. round_f32 x = Finite False y \<and> 0 \<le> y \<and> y \<le> 100"
proof (cases "x = 0")
  case True
  then show ?thesis by (simp add: round_f32_def)
next
  case False
  then have pos: "0 < x" using assms(1) by simp
  define q where "q = max (floor_log2 x - 23) (- 149)"
  define N where "N = nat (- q)"
  have "floor_log2 x < 7" by (rule floor_log2_less_7[OF pos assms(2)])
  then have qneg: "q < 0" unfolding q_def by simp
  have pw: "(2::rat) powi q = 1 / 2 ^ N"
    using qneg unfolding N_def by (simp add: power_int_def field_simps)
  define m where "m = round_half_even (x / 2 powi q)"
  have sc: "x / 2 powi q = x * 2 ^ N" unfolding pw by simp
  have a: "0 \<le> x * 2 ^ N" using assms(1) by simp
  have b: "x * 2 ^ N \<le> of_int (100 * 2 ^ N)" using assms(2) by simp
  from round_half_even_bounds[OF a b] have mb: "0 \<le> m" "m \<le> 100 * 2 ^ N"
    unfolding m_def sc by blast+
  define y where "y = of_int m * (2::rat) powi q"
  have y0: "0 \<le> y" unfolding y_def pw using mb(1) by simp
  have "(of_int m :: rat) \<le> of_int (100 * 2 ^ N)" using mb(2) by (simp only: of_int_le_iff)
  then have "(of_int m :: rat) \<le> 100 * 2 ^ N" by simp
  then have y100: "y \<le> 100" unfolding y_def pw by (simp add: field_simps)
  have fin: "\<not> 2 ^ 128 \<le> y" using y100 by simp
  have "round_f32 x = Finite False y"
    using False pos fin
    unfolding round_f32_def Let_def y_def m_def q_def by simp
  then show ?thesis using y0 y100 by blast
qed

lemma mul100_percent:
  assumes "0 \<le> p" and "p \<le> 1"
  shows "\<exists>y. mul100 p = Finite False y \<and> 0 \<le> y \<and> y \<le> 100 \<and> tenths y \<le> 1000"
proof -
  have a: "0 \<le> p * 100" using assms(1) by simp
  have b: "p * 100 \<le> 100" using assms(2) by simp
  from round_f32_percent[OF a b] obtain y where
    y: "round_f32 (p * 100) = Finite False y" "0 \<le> y" "y \<le> 100"
    by blast
  have c: "0 \<le> y * 10" using y(2) by simp
  have d: "y * 10 \<le> of_int 1000" using y(3) by simp
  from round_half_even_bounds[OF c d]
  have "round_half_even (y * 10) \<le> 1000" by blast
  then have "tenths y \<le> 1000" unfolding tenths_def by linarith
  then show ?thesis using y by (simp add: mul100_def)
qed

lemma fmt_1f_finite_shape:
  "\<exists>ds d. ds \<noteq> [] \<and> set ds \<subseteq> set ''0123456789'' \<and> d \<in> set ''0123456789'' \<and>
     fmt_1f (Finite s y) = (if s then ''-'' else '''') @ ds @ ''.'' @ [d]"
proof -
  have "tenths y mod 10 < 10" by simp
  from digit_char_digit[OF this] show_nat_digits[of "tenths y div 10"]
  show ?thesis by (simp only: fmt_1f.simps) blast
qed

section \<open>Facts about the printed lines\<close>

lemma length_ranked_lines: "length (ranked_lines cs ps ixs) = length ixs"
  by (simp add: ranked_lines_def)

lemma report_Returned_length:
  assumes "argsort_ok srt" and "report srt cs ps = (out, Returned)"
  shows "length out = 2 + min 5 (length ps)"
proof -
  from assms(2) obtain k where
    "out = top_line (cs ! k) (ps ! k) # ''All predictions:'' #
             ranked_lines cs ps (enumerate 1 (top_indices srt ps))"
    by (rule report_Returned)
  then show ?thesis
    by (simp add: length_ranked_lines length_top_indices[OF assms(1)])
qed

lemma list_of_length_five:
  assumes "length xs = 5"
  obtains a b c d e where "xs = [a, b, c, d, e]"
proof -
  from assms have "length xs = Suc (Suc (Suc (Suc (Suc 0))))" by simp
  then obtain a b c d e where "xs = [a, b, c, d, e]"
    by (auto simp: length_Suc_conv)
  then show ?thesis by (rule that)
qed

lemma enumerate_five:
  "enumerate 1 [a, b, c, d, e] = [(1, a), (2, b), (3, c), (4, d), (5, e)]"
  by (simp add: eval_nat_numeral)

lemma print_ranked_lines:
  assumes "line \<in> set (fst (print_ranked cs ps ixs out))"
  shows "line \<in> set out \<or> (\<exists>i name p. p \<in> set ps \<and> line = ranked_line i name p)"
  using assms
proof (induction ixs arbitrary: out)
  case Nil
  then show ?case by simp
next
  case (Cons a ixs)
  obtain i idx where a: "a = (i, idx)" by (cases a)
  show ?case
  proof (cases "idx < length cs \<and> idx < length ps")
    case True
    then have "print_ranked cs ps (a # ixs) out =
        print_ranked cs ps ixs (out @ [ranked_line i (cs ! idx) (ps ! idx)])"
      by (simp add: a list_getitem_def ndarray_getitem_def)
    with Cons.prems have "line \<in> set (fst (print_ranked cs ps ixs
        (out @ [ranked_line i (cs ! idx) (ps ! idx)])))" by simp
    from Cons.IH[OF this] have "line \<in> set out \<or> line = ranked_line i (cs ! idx) (ps ! idx) \<or>
        (\<exists>i name p. p \<in> set ps \<and> line = ranked_line i name p)" by auto
    moreover have "ps ! idx \<in> set ps" using True by simp
    ultimately show ?thesis by blast
  next
    case False
    then have "fst (print_ranked cs ps (a # ixs) out) = out"
      by (auto simp: a list_getitem_def ndarray_getitem_def)
    with Cons.prems show ?thesis by simp
  qed
qed

lemma report_lines:
  assumes "line \<in> set (fst (report srt cs ps))"
  shows "line = ''All predictions:'' \<or> (\<exists>name p. p \<in> set ps \<and> line = top_line name p) \<or>
         (\<exists>i name p. p \<in> set ps \<and> line = ranked_line i name p)"
proof (cases "argmax ps")
  case (Inl x)
  with assms show ?thesis by (simp add: report_def)
next
  case (Inr k)
  note k = argmax_is_Max[OF Inr]
  show ?thesis
  proof (cases "k < length cs")
    case False
    with assms Inr show ?thesis by (simp add: report_def list_getitem_def)
  next
    case True
    with assms Inr k have "line \<in> set (fst (print_ranked cs ps (enumerate 1 (top_indices srt ps))
        [top_line (cs ! k) (ps ! k), ''All predictions:'']))"
      by (simp add: report_def list_getitem_def ndarray_getitem_def)
    from print_ranked_lines[OF this] have
      "line = top_line (cs ! k) (ps ! k) \<or> line = ''All predictions:'' \<or>
       (\<exists>i name p. p \<in> set ps \<and> line = ranked_line i name p)" by auto
    moreover have "ps ! k \<in> set ps"
    proof (rule nth_mem)
      show "k < length ps" using k by blast
    qed
    ultimately show ?thesis by blast
  qed
qed

section \<open>Facts about the entry point\<close>

lemma main_Raised:
  "2 \<le> length argv \<Longrightarrow> predict_image srt e (argv ! 1) = (out, Raised x) \<Longrightarrow>
     main srt e argv = (out @ [''Error: '' @ x], 1)"
  by (simp add: main_def)

lemma main_Returned:
  "2 \<le> length argv \<Longrightarrow> predict_image srt e (argv ! 1) = (out, Returned) \<Longrightarrow>
     main srt e argv = (out, 0)"
  by (simp add: main_def)

lemma predict_image_report:
  "saved_model e = Inr sg \<Longrightarrow> class_file e = Inr cs \<Longrightarrow> imread e path = Some img \<Longrightarrow>
   preprocess e img = Inr t \<Longrightarrow> infer e sg t = Inr ps \<Longrightarrow>
     predict_image srt e path = report srt cs ps"
  by (simp add: predict_image_def)

lemma predict_image_Exited:
  assumes "predict_image srt e path = (out, Exited c)"
  shows "c = 1 \<and> out = [''Error: Could not read image'']"
proof -
  have "snd (report srt cs ps) \<noteq> Exited c" for cs ps by (rule report_not_Exited)
  then have "report srt cs ps \<noteq> (out, Exited c)" for cs ps by (metis snd_conv)
  with assms show ?thesis
    by (auto simp: predict_image_def split: sum.splits option.splits)
qed

lemma main_exit_code: "snd (main srt e argv) = 0 \<or> snd (main srt e argv) = 1"
proof (cases "length argv < 2")
  case True
  then show ?thesis by (simp add: main_def)
next
  case False
  obtain out r where p: "predict_image srt e (argv ! 1) = (out, r)"
    by (cases "predict_image srt e (argv ! 1)")
  show ?thesis
  proof (cases r)
    case Returned
    with p False show ?thesis by (simp add: main_def)
  next
    case (Exited c)
    with p predict_image_Exited[of srt e "argv ! 1" out c] False show ?thesis
      by (simp add: main_def)
  next
    case (Raised x)
    with p False show ?thesis by (simp add: main_def)
  qed
qed

section \<open>The claims\<close>

text \<open>
  C1, as amended. In a run that returns, with any admissible argsort, line 1 is the top
  line for the position \<open>k\<close> that argmax returns and line 3 is the rank 1 line for
  the first selected position \<open>r\<close>; both carry the score \<open>ps ! k\<close>, hence the
  same rounded percentage, and when the largest score occurs at one position only,
  \<open>r = k\<close> and the labels are the same too. The claim as stated fails when the largest
  score is shared: argmax keeps its first position, and a sort that keeps equal values in
  order puts its last position at rank 1.
\<close>

theorem top_line_matches_rank_one:
  assumes "argsort_ok srt" and "report srt cs ps = (out, Returned)"
  shows "\<exists>k r. argmax ps = Inr k \<and> top_indices srt ps \<noteq> [] \<and> r = hd (top_indices srt ps) \<and>
           out ! 0 = top_line (cs ! k) (ps ! k) \<and>
           out ! 2 = ranked_line 1 (cs ! r) (ps ! k) \<and>
           ((\<forall>j<length ps. ps ! j = ps ! k \<longrightarrow> j = k) \<longrightarrow> r = k)"
proof -
  from assms(2) obtain k where k: "argmax ps = Inr k" "k < length ps"
    and out: "out = top_line (cs ! k) (ps ! k) # ''All predictions:'' #
             ranked_lines cs ps (enumerate 1 (top_indices srt ps))"
    by (rule report_Returned)
  have ne: "ps \<noteq> []" using k(2) by auto
  define r where "r = hd (top_indices srt ps)"
  have tne: "top_indices srt ps \<noteq> []" by (rule top_indices_hd(1)[OF assms(1) ne])
  have "ps ! r = Max (set ps)" unfolding r_def by (rule top_indices_hd(2)[OF assms(1) ne])
  then have same: "ps ! r = ps ! k" using argmax_is_Max[OF k(1)] by simp
  have "r \<in> set (top_indices srt ps)" unfolding r_def using tne by simp
  then have rlt: "r < length ps" by (rule top_indices_in_range[OF assms(1)])
  obtain rest where t: "top_indices srt ps = r # rest"
    using tne r_def by (cases "top_indices srt ps") auto
  have l0: "out ! 0 = top_line (cs ! k) (ps ! k)" by (simp add: out)
  have l2: "out ! 2 = ranked_line 1 (cs ! r) (ps ! k)"
    by (simp add: out t ranked_lines_def same)
  have u: "(\<forall>j<length ps. ps ! j = ps ! k \<longrightarrow> j = k) \<longrightarrow> r = k"
    using rlt same by blast
  show ?thesis using k(1) tne r_def l0 l2 u by blast
qed

theorem top_line_matches_rank_one_witness:
  "argsort_ok argsort_stable \<and>
   report argsort_stable [''a'', ''b'', ''c'', ''d'', ''e''] [1 / 4, 1 / 2, 1 / 8, 1 / 16, 1 / 16] =
     ([''Top prediction: b (50.0%)'', ''All predictions:'',
       ''1. b: 50.0%'', ''2. a: 25.0%'', ''3. c: 12.5%'', ''4. e: 6.2%'', ''5. d: 6.2%''],
      Returned) \<and>
   (\<exists>k r. argmax [1 / 4, 1 / 2, 1 / 8, 1 / 16, 1 / 16] = Inr k \<and>
      r = hd (top_indices argsort_stable [1 / 4, 1 / 2, 1 / 8, 1 / 16, 1 / 16]) \<and>
      ''Top prediction: b (50.0%)'' =
         top_line ([''a'', ''b'', ''c'', ''d'', ''e''] ! k) ([1 / 4, 1 / 2, 1 / 8, 1 / 16, 1 / 16] ! k) \<and>
      ''1. b: 50.0%'' =
         ranked_line 1 ([''a'', ''b'', ''c'', ''d'', ''e''] ! r) ([1 / 4, 1 / 2, 1 / 8, 1 / 16, 1 / 16] ! k) \<and>
      r = k)"
proof -
  let ?P = "[1 / 4, 1 / 2, 1 / 8, 1 / 16, 1 / 16 :: rat]"
  let ?L = "[''a'', ''b'', ''c'', ''d'', ''e'']"
  let ?O = "[''Top prediction: b (50.0%)'', ''All predictions:'',
       ''1. b: 50.0%'', ''2. a: 25.0%'', ''3. c: 12.5%'', ''4. e: 6.2%'', ''5. d: 6.2%'']"
  have rep: "report argsort_stable ?L ?P = (?O, Returned)" by code_simp
  have am: "argmax ?P = Inr 1" by code_simp
  have uniq: "\<forall>j<length ?P. ?P ! j = ?P ! 1 \<longrightarrow> j = 1"
    by (auto simp: numeral_eq_Suc less_Suc_eq)
  from top_line_matches_rank_one [OF argsort_stable_ok rep]
  obtain k r where kr: "argmax ?P = Inr k"
      "r = hd (top_indices argsort_stable ?P)"
      "?O ! 0 = top_line (?L ! k) (?P ! k)"
      "?O ! 2 = ranked_line 1 (?L ! r) (?P ! k)"
      "(\<forall>j<length ?P. ?P ! j = ?P ! k \<longrightarrow> j = k) \<longrightarrow> r = k"
    by blast
  have k1: "k = 1" using kr(1) am by simp
  have rk: "r = k" using kr(5) uniq unfolding k1 by blast
  have l0: "''Top prediction: b (50.0%)'' = top_line (?L ! k) (?P ! k)"
    using kr(3) by simp
  have l2: "''1. b: 50.0%'' = ranked_line 1 (?L ! r) (?P ! k)"
    using kr(4) by simp
  show ?thesis using argsort_stable_ok rep kr(1) kr(2) l0 l2 rk by blast
qed

theorem top_line_matches_rank_one_counterexample:
  "argsort_ok argsort_stable \<and>
   report argsort_stable [''a'', ''b'', ''c'', ''d'', ''e''] [1 / 4, 1 / 4, 1 / 4, 1 / 8, 1 / 8] =
     ([''Top prediction: a (25.0%)'', ''All predictions:'',
       ''1. c: 25.0%'', ''2. b: 25.0%'', ''3. a: 25.0%'', ''4. e: 12.5%'', ''5. d: 12.5%''],
      Returned) \<and>
   ''a'' \<noteq> ''c''"
proof -
  have "report argsort_stable [''a'', ''b'', ''c'', ''d'', ''e''] [1 / 4, 1 / 4, 1 / 4, 1 / 8, 1 / 8] =
     ([''Top prediction: a (25.0%)'', ''All predictions:'',
       ''1. c: 25.0%'', ''2. b: 25.0%'', ''3. a: 25.0%'', ''4. e: 12.5%'', ''5. d: 12.5%''],
      Returned)"
    by code_simp
  then show ?thesis using argsort_stable_ok by simp
qed

text \<open>
  C2, as amended. A run that returns on a prediction vector with at least five entries
  prints exactly seven lines: the top line, the header, and ranks 1 to 5 in the stated
  patterns. The claim as stated fails for a model with fewer than five classes, where a
  run that returns prints fewer lines.
\<close>

theorem seven_lines_with_five_classes:
  assumes "argsort_ok srt" and "report srt cs ps = (out, Returned)" and "5 \<le> length ps"
  shows "\<exists>k t1 t2 t3 t4 t5. argmax ps = Inr k \<and> top_indices srt ps = [t1, t2, t3, t4, t5] \<and>
           out =
             [''Top prediction: '' @ cs ! k @ '' ('' @ fmt_1f (mul100 (ps ! k)) @ ''%)'',
              ''All predictions:'',
              ''1. '' @ cs ! t1 @ '': '' @ fmt_1f (mul100 (ps ! t1)) @ ''%'',
              ''2. '' @ cs ! t2 @ '': '' @ fmt_1f (mul100 (ps ! t2)) @ ''%'',
              ''3. '' @ cs ! t3 @ '': '' @ fmt_1f (mul100 (ps ! t3)) @ ''%'',
              ''4. '' @ cs ! t4 @ '': '' @ fmt_1f (mul100 (ps ! t4)) @ ''%'',
              ''5. '' @ cs ! t5 @ '': '' @ fmt_1f (mul100 (ps ! t5)) @ ''%'']"
proof -
  from assms(2) obtain k where k: "argmax ps = Inr k"
    and out: "out = top_line (cs ! k) (ps ! k) # ''All predictions:'' #
             ranked_lines cs ps (enumerate 1 (top_indices srt ps))"
    by (rule report_Returned)
  have "length (top_indices srt ps) = 5"
    using length_top_indices[OF assms(1), of ps] assms(3) by simp
  then obtain t1 t2 t3 t4 t5 where t: "top_indices srt ps = [t1, t2, t3, t4, t5]"
    by (rule list_of_length_five)
  have "out =
             [''Top prediction: '' @ cs ! k @ '' ('' @ fmt_1f (mul100 (ps ! k)) @ ''%)'',
              ''All predictions:'',
              ''1. '' @ cs ! t1 @ '': '' @ fmt_1f (mul100 (ps ! t1)) @ ''%'',
              ''2. '' @ cs ! t2 @ '': '' @ fmt_1f (mul100 (ps ! t2)) @ ''%'',
              ''3. '' @ cs ! t3 @ '': '' @ fmt_1f (mul100 (ps ! t3)) @ ''%'',
              ''4. '' @ cs ! t4 @ '': '' @ fmt_1f (mul100 (ps ! t4)) @ ''%'',
              ''5. '' @ cs ! t5 @ '': '' @ fmt_1f (mul100 (ps ! t5)) @ ''%'']"
    unfolding out t enumerate_five
    by (simp add: ranked_lines_def ranked_line_def top_line_def show_nat_small)
  then show ?thesis using k t by blast
qed

theorem seven_lines_with_five_classes_witness:
  "argsort_ok argsort_stable \<and>
   report argsort_stable [''a'', ''b'', ''c'', ''d'', ''e'', ''f'']
       [1 / 16, 1 / 2, 1 / 32, 1 / 8, 1 / 4, 1 / 32] =
     ([''Top prediction: b (50.0%)'', ''All predictions:'',
       ''1. b: 50.0%'', ''2. e: 25.0%'', ''3. d: 12.5%'', ''4. a: 6.2%'', ''5. f: 3.1%''],
      Returned) \<and>
   5 \<le> length [1 / 16, 1 / 2, 1 / 32, 1 / 8, 1 / 4, 1 / 32 :: rat] \<and>
   (\<exists>k t1 t2 t3 t4 t5.
      argmax [1 / 16, 1 / 2, 1 / 32, 1 / 8, 1 / 4, 1 / 32] = Inr k \<and>
      top_indices argsort_stable [1 / 16, 1 / 2, 1 / 32, 1 / 8, 1 / 4, 1 / 32] =
        [t1, t2, t3, t4, t5] \<and>
      [''Top prediction: b (50.0%)'', ''All predictions:'',
       ''1. b: 50.0%'', ''2. e: 25.0%'', ''3. d: 12.5%'', ''4. a: 6.2%'', ''5. f: 3.1%''] =
        [''Top prediction: '' @ [''a'', ''b'', ''c'', ''d'', ''e'', ''f''] ! k @ '' ('' @
           fmt_1f (mul100 ([1 / 16, 1 / 2, 1 / 32, 1 / 8, 1 / 4, 1 / 32] ! k)) @ ''%)'',
         ''All predictions:'',
         ''1. '' @ [''a'', ''b'', ''c'', ''d'', ''e'', ''f''] ! t1 @ '': '' @
           fmt_1f (mul100 ([1 / 16, 1 / 2, 1 / 32, 1 / 8, 1 / 4, 1 / 32] ! t1)) @ ''%'',
         ''2. '' @ [''a'', ''b'', ''c'', ''d'', ''e'', ''f''] ! t2 @ '': '' @
           fmt_1f (mul100 ([1 / 16, 1 / 2, 1 / 32, 1 / 8, 1 / 4, 1 / 32] ! t2)) @ ''%'',
         ''3. '' @ [''a'', ''b'', ''c'', ''d'', ''e'', ''f''] ! t3 @ '': '' @
           fmt_1f (mul100 ([1 / 16, 1 / 2, 1 / 32, 1 / 8, 1 / 4, 1 / 32] ! t3)) @ ''%'',
         ''4. '' @ [''a'', ''b'', ''c'', ''d'', ''e'', ''f''] ! t4 @ '': '' @
           fmt_1f (mul100 ([1 / 16, 1 / 2, 1 / 32, 1 / 8, 1 / 4, 1 / 32] ! t4)) @ ''%'',
         ''5. '' @ [''a'', ''b'', ''c'', ''d'', ''e'', ''f''] ! t5 @ '': '' @
           fmt_1f (mul100 ([1 / 16, 1 / 2, 1 / 32, 1 / 8, 1 / 4, 1 / 32] ! t5)) @ ''%''])"
proof -
  have r: "report argsort_stable [''a'', ''b'', ''c'', ''d'', ''e'', ''f'']
       [1 / 16, 1 / 2, 1 / 32, 1 / 8, 1 / 4, 1 / 32] =
     ([''Top prediction: b (50.0%)'', ''All predictions:'',
       ''1. b: 50.0%'', ''2. e: 25.0%'', ''3. d: 12.5%'', ''4. a: 6.2%'', ''5. f: 3.1%''],
      Returned)"
    by code_simp
  have n: "5 \<le> length [1 / 16, 1 / 2, 1 / 32, 1 / 8, 1 / 4, 1 / 32 :: rat]" by simp
  note t = seven_lines_with_five_classes [OF argsort_stable_ok r n]
  show ?thesis using argsort_stable_ok r n t by blast
qed

theorem seven_lines_counterexample:
  "argsort_ok argsort_stable \<and>
   report argsort_stable [''a'', ''b'', ''c''] [1 / 4, 1 / 2, 1 / 4] =
     ([''Top prediction: b (50.0%)'', ''All predictions:'',
       ''1. b: 50.0%'', ''2. c: 25.0%'', ''3. a: 25.0%''], Returned) \<and>
   length (fst (report argsort_stable [''a'', ''b'', ''c''] [1 / 4, 1 / 2, 1 / 4])) \<noteq> 7"
proof -
  have "report argsort_stable [''a'', ''b'', ''c''] [1 / 4, 1 / 2, 1 / 4] =
     ([''Top prediction: b (50.0%)'', ''All predictions:'',
       ''1. b: 50.0%'', ''2. c: 25.0%'', ''3. a: 25.0%''], Returned)"
    by code_simp
  then show ?thesis using argsort_stable_ok by simp
qed

text \<open>
  C3, as amended. When the label table is at least as long as every vector the model
  returns, a run does one of two things. Either every stage succeeds, the program prints
  the whole report of the vector that the model returned for this image (the top line,
  the header, and one ranked line for each of its min 5 N selected positions) and exits
  with code 0. Or it prints nothing but one message starting with \<open>Error: \<close>, in one
  call of \<open>print\<close>, and exits with code 1. The claim as stated fails for a label
  table shorter than the vector: the lines are printed one at a time, and a lookup that
  fails in the loop leaves the top line, the header and some ranked lines before the
  error message.
\<close>

theorem full_report_or_one_error_line:
  assumes "argsort_ok srt"
    and "\<forall>cs sg t ps. class_file e = Inr cs \<longrightarrow> infer e sg t = Inr ps \<longrightarrow> length ps \<le> length cs"
  shows "(\<exists>sg cs img t ps k.
            2 \<le> length argv \<and> saved_model e = Inr sg \<and> class_file e = Inr cs \<and>
            imread e (argv ! 1) = Some img \<and> preprocess e img = Inr t \<and>
            infer e sg t = Inr ps \<and> argmax ps = Inr k \<and>
            main srt e argv =
              (top_line (cs ! k) (ps ! k) # ''All predictions:'' #
                 ranked_lines cs ps (enumerate 1 (top_indices srt ps)), 0) \<and>
            length (ranked_lines cs ps (enumerate 1 (top_indices srt ps))) = min 5 (length ps)) \<or>
         (\<exists>x. main srt e argv = ([''Error: '' @ x], 1))"
proof (cases "length argv < 2")
  case True
  then have "main srt e argv = ([''Error: '' @ ''No image path provided''], 1)"
    by (simp add: main_def)
  then show ?thesis by blast
next
  case False
  then have two: "2 \<le> length argv" by simp
  let ?path = "argv ! 1"
  show ?thesis
  proof (cases "saved_model e")
    case (Inl x)
    then have "predict_image srt e ?path = ([], Raised x)" by (simp add: predict_image_def)
    from main_Raised[OF two this] show ?thesis by auto
  next
    case sg: (Inr sg)
    show ?thesis
    proof (cases "class_file e")
      case (Inl x)
      with sg have "predict_image srt e ?path = ([], Raised x)" by (simp add: predict_image_def)
      from main_Raised[OF two this] show ?thesis by auto
    next
      case cs: (Inr cs)
      show ?thesis
      proof (cases "imread e ?path")
        case None
        with sg cs have "main srt e argv = ([''Error: '' @ ''Could not read image''], 1)"
          using two by (simp add: main_def predict_image_def)
        then show ?thesis by blast
      next
        case img: (Some img)
        show ?thesis
        proof (cases "preprocess e img")
          case (Inl x)
          with sg cs img have "predict_image srt e ?path = ([], Raised x)"
            by (simp add: predict_image_def)
          from main_Raised[OF two this] show ?thesis by auto
        next
          case t: (Inr t)
          show ?thesis
          proof (cases "infer e sg t")
            case (Inl x)
            with sg cs img t have "predict_image srt e ?path = ([], Raised x)"
              by (simp add: predict_image_def)
            from main_Raised[OF two this] show ?thesis by auto
          next
            case ps: (Inr ps)
            have pr: "predict_image srt e ?path = report srt cs ps"
              by (rule predict_image_report[OF sg cs img t ps])
            show ?thesis
            proof (cases "ps = []")
              case True
              then have "predict_image srt e ?path =
                  ([], Raised ''attempt to get argmax of an empty sequence'')"
                using pr by (simp add: report_empty)
              from main_Raised[OF two this] show ?thesis by auto
            next
              case ne: False
              have le: "length ps \<le> length cs" using assms(2) cs ps by blast
              from report_in_range[OF assms(1) ne le] obtain k where
                k: "argmax ps = Inr k" and
                r: "report srt cs ps =
                      (top_line (cs ! k) (ps ! k) # ''All predictions:'' #
                         ranked_lines cs ps (enumerate 1 (top_indices srt ps)), Returned)"
                by blast
              from r pr have "predict_image srt e ?path =
                      (top_line (cs ! k) (ps ! k) # ''All predictions:'' #
                         ranked_lines cs ps (enumerate 1 (top_indices srt ps)), Returned)"
                by simp
              from main_Returned[OF two this]
              have m: "main srt e argv =
                      (top_line (cs ! k) (ps ! k) # ''All predictions:'' #
                         ranked_lines cs ps (enumerate 1 (top_indices srt ps)), 0)" .
              have n: "length (ranked_lines cs ps (enumerate 1 (top_indices srt ps))) =
                  min 5 (length ps)"
                by (simp add: length_ranked_lines length_top_indices[OF assms(1)])
              show ?thesis using two sg cs img t ps k m n by blast
            qed
          qed
        qed
      qed
    qed
  qed
qed

theorem full_report_or_one_error_line_witness:
  "argsort_ok argsort_stable \<and>
   class_file example_env = Inr [''a'', ''b'', ''c'', ''d'', ''e''] \<and>
   infer example_env = (\<lambda>_ _. Inr [1 / 2, 1 / 4, 1 / 8, 1 / 16, 1 / 16]) \<and>
   main argsort_stable example_env [''predict_spring.py'', ''dish.jpg''] =
     ([''Top prediction: a (50.0%)'', ''All predictions:'', ''1. a: 50.0%'', ''2. b: 25.0%'',
       ''3. c: 12.5%'', ''4. e: 6.2%'', ''5. d: 6.2%''], 0) \<and>
   (\<exists>sg cs img t ps k.
      2 \<le> length [''predict_spring.py'', ''dish.jpg''] \<and>
      saved_model example_env = Inr sg \<and> class_file example_env = Inr cs \<and>
      imread example_env ([''predict_spring.py'', ''dish.jpg''] ! 1) = Some img \<and>
      preprocess example_env img = Inr t \<and> infer example_env sg t = Inr ps \<and>
      argmax ps = Inr k \<and>
      main argsort_stable example_env [''predict_spring.py'', ''dish.jpg''] =
        (top_line (cs ! k) (ps ! k) # ''All predictions:'' #
           ranked_lines cs ps (enumerate 1 (top_indices argsort_stable ps)), 0) \<and>
      length (ranked_lines cs ps (enumerate 1 (top_indices argsort_stable ps))) =
        min 5 (length ps))"
proof -
  have c: "class_file example_env = Inr [''a'', ''b'', ''c'', ''d'', ''e'']"
    by (simp add: example_env_def)
  have i: "infer example_env = (\<lambda>_ _. Inr [1 / 2, 1 / 4, 1 / 8, 1 / 16, 1 / 16])"
    by (simp add: example_env_def)
  have h: "\<forall>cs sg t ps. class_file example_env = Inr cs \<longrightarrow> infer example_env sg t = Inr ps \<longrightarrow>
      length ps \<le> length cs"
    unfolding c i by auto
  have m: "main argsort_stable example_env [''predict_spring.py'', ''dish.jpg''] =
     ([''Top prediction: a (50.0%)'', ''All predictions:'', ''1. a: 50.0%'', ''2. b: 25.0%'',
       ''3. c: 12.5%'', ''4. e: 6.2%'', ''5. d: 6.2%''], 0)"
    by code_simp
  have n: "\<not> (\<exists>x. main argsort_stable example_env [''predict_spring.py'', ''dish.jpg''] =
      ([''Error: '' @ x], 1))"
    unfolding m by simp
  note t = full_report_or_one_error_line [OF argsort_stable_ok h,
      of "[''predict_spring.py'', ''dish.jpg'']"]
  from t n have "\<exists>sg cs img t ps k.
      2 \<le> length [''predict_spring.py'', ''dish.jpg''] \<and>
      saved_model example_env = Inr sg \<and> class_file example_env = Inr cs \<and>
      imread example_env ([''predict_spring.py'', ''dish.jpg''] ! 1) = Some img \<and>
      preprocess example_env img = Inr t \<and> infer example_env sg t = Inr ps \<and>
      argmax ps = Inr k \<and>
      main argsort_stable example_env [''predict_spring.py'', ''dish.jpg''] =
        (top_line (cs ! k) (ps ! k) # ''All predictions:'' #
           ranked_lines cs ps (enumerate 1 (top_indices argsort_stable ps)), 0) \<and>
      length (ranked_lines cs ps (enumerate 1 (top_indices argsort_stable ps))) =
        min 5 (length ps)"
    by blast
  with argsort_stable_ok c i m show ?thesis by blast
qed

theorem partial_report_counterexample:
  "class_file (example_env\<lparr>class_file := Inr [''a'', ''b'', ''c'', ''d'']\<rparr>) =
     Inr [''a'', ''b'', ''c'', ''d''] \<and>
   main argsort_stable (example_env\<lparr>class_file := Inr [''a'', ''b'', ''c'', ''d'']\<rparr>)
       [''predict_spring.py'', ''dish.jpg''] =
     ([''Top prediction: a (50.0%)'', ''All predictions:'', ''1. a: 50.0%'', ''2. b: 25.0%'',
       ''3. c: 12.5%'', ''Error: list index out of range''], 1)"
proof -
  have "main argsort_stable (example_env\<lparr>class_file := Inr [''a'', ''b'', ''c'', ''d'']\<rparr>)
       [''predict_spring.py'', ''dish.jpg''] =
     ([''Top prediction: a (50.0%)'', ''All predictions:'', ''1. a: 50.0%'', ''2. b: 25.0%'',
       ''3. c: 12.5%'', ''Error: list index out of range''], 1)"
    by code_simp
  then show ?thesis by simp
qed

text \<open>
  C4, as amended. Every line of the report other than the header shows, formatted by
  \<open>.1f\<close>, the float32 product of 100 and an entry of the prediction vector. A finite
  product prints as an optional minus sign, one or more digits, a point and exactly one
  digit; a product too large for float32 prints as \<open>inf\<close>. For an entry between 0 and
  1 the product is finite and at most 100 and the number of tenths printed is at most
  1000, a minus sign going with zero only: the percentage has one digit after the point
  and lies between 0.0 and 100.0. The claim as stated fails for a model whose outputs
  are not probabilities: the program applies no softmax and no clamp.
\<close>

theorem percentages_one_decimal_bounded:
  "(\<forall>line\<in>set (fst (report srt cs ps)).
      line = ''All predictions:'' \<or> (\<exists>name p. p \<in> set ps \<and> line = top_line name p) \<or>
      (\<exists>i name p. p \<in> set ps \<and> line = ranked_line i name p)) \<and>
   (mul100 x = Finite s y \<longrightarrow>
      (\<exists>ds d. ds \<noteq> [] \<and> set ds \<subseteq> set ''0123456789'' \<and> d \<in> set ''0123456789'' \<and>
         fmt_1f (mul100 x) = (if s then ''-'' else '''') @ ds @ ''.'' @ [d])) \<and>
   (mul100 x = Infinite s \<longrightarrow> fmt_1f (mul100 x) = (if s then ''-inf'' else ''inf'')) \<and>
   (0 \<le> q \<and> q \<le> 1 \<longrightarrow>
      (\<exists>sg m. mul100 q = Finite sg m \<and> (sg \<longrightarrow> m = 0) \<and> 0 \<le> m \<and> m \<le> 100 \<and>
         tenths m \<le> 1000 \<and>
         fmt_1f (mul100 q) =
           (if sg then ''-'' else '''') @ show_nat (tenths m div 10) @ ''.'' @
             [digit_char (tenths m mod 10)]))"
proof (intro conjI ballI impI)
  fix line assume "line \<in> set (fst (report srt cs ps))"
  then show "line = ''All predictions:'' \<or> (\<exists>name p. p \<in> set ps \<and> line = top_line name p) \<or>
      (\<exists>i name p. p \<in> set ps \<and> line = ranked_line i name p)"
    by (rule report_lines)
next
  assume f: "mul100 x = Finite s y"
  show "\<exists>ds d. ds \<noteq> [] \<and> set ds \<subseteq> set ''0123456789'' \<and> d \<in> set ''0123456789'' \<and>
         fmt_1f (mul100 x) = (if s then ''-'' else '''') @ ds @ ''.'' @ [d]"
    unfolding f by (rule fmt_1f_finite_shape)
next
  assume "mul100 x = Infinite s"
  then show "fmt_1f (mul100 x) = (if s then ''-inf'' else ''inf'')" by simp
next
  assume "0 \<le> q \<and> q \<le> 1"
  then have "0 \<le> q" "q \<le> 1" by blast+
  from mul100_percent[OF this] obtain m where
    m: "mul100 q = Finite False m" "0 \<le> m" "m \<le> 100" "tenths m \<le> 1000"
    by blast
  have "fmt_1f (mul100 q) =
           (if False then ''-'' else '''') @ show_nat (tenths m div 10) @ ''.'' @
             [digit_char (tenths m mod 10)]"
    unfolding m(1) by (simp only: fmt_1f.simps)
  with m show "\<exists>sg m. mul100 q = Finite sg m \<and> (sg \<longrightarrow> m = 0) \<and> 0 \<le> m \<and> m \<le> 100 \<and>
         tenths m \<le> 1000 \<and>
         fmt_1f (mul100 q) =
           (if sg then ''-'' else '''') @ show_nat (tenths m div 10) @ ''.'' @
             [digit_char (tenths m mod 10)]"
    by blast
qed

theorem percentages_one_decimal_bounded_witness:
  "report argsort_stable [''a'', ''b'', ''c'', ''d'', ''e'']
       [16106127 / 2147483648, 1 / 2, 1 / 4, 1 / 8, 1 / 16] =
     ([''Top prediction: b (50.0%)'', ''All predictions:'', ''1. b: 50.0%'', ''2. c: 25.0%'',
       ''3. d: 12.5%'', ''4. e: 6.2%'', ''5. a: 0.8%''], Returned) \<and>
   (''5. a: 0.8%'' = ''All predictions:'' \<or>
    (\<exists>name p. p \<in> set [16106127 / 2147483648, 1 / 2, 1 / 4, 1 / 8, 1 / 16] \<and>
       ''5. a: 0.8%'' = top_line name p) \<or>
    (\<exists>i name p. p \<in> set [16106127 / 2147483648, 1 / 2, 1 / 4, 1 / 8, 1 / 16] \<and>
       ''5. a: 0.8%'' = ranked_line i name p)) \<and>
   mul100 (16106127 / 2147483648) = Finite False (3 / 4) \<and>
   (\<exists>ds d. ds \<noteq> [] \<and> set ds \<subseteq> set ''0123456789'' \<and> d \<in> set ''0123456789'' \<and>
      fmt_1f (mul100 (16106127 / 2147483648)) = (if False then ''-'' else '''') @ ds @ ''.'' @ [d]) \<and>
   (0::rat) \<le> 16106127 / 2147483648 \<and> (16106127 / 2147483648 :: rat) \<le> 1 \<and>
   (\<exists>sg m. mul100 (16106127 / 2147483648) = Finite sg m \<and> (sg \<longrightarrow> m = 0) \<and> 0 \<le> m \<and>
      m \<le> 100 \<and> tenths m \<le> 1000 \<and>
      fmt_1f (mul100 (16106127 / 2147483648)) =
        (if sg then ''-'' else '''') @ show_nat (tenths m div 10) @ ''.'' @
          [digit_char (tenths m mod 10)]) \<and>
   fmt_1f (mul100 (16106127 / 2147483648)) = ''0.8''"
proof -
  let ?P = "[16106127 / 2147483648, 1 / 2, 1 / 4, 1 / 8, 1 / 16 :: rat]"
  let ?L = "[''a'', ''b'', ''c'', ''d'', ''e'']"
  let ?O = "[''Top prediction: b (50.0%)'', ''All predictions:'', ''1. b: 50.0%'', ''2. c: 25.0%'',
       ''3. d: 12.5%'', ''4. e: 6.2%'', ''5. a: 0.8%'']"
  have r: "report argsort_stable ?L ?P = (?O, Returned)" by code_simp
  have f: "mul100 (16106127 / 2147483648) = Finite False (3 / 4)" by code_simp
  have v: "fmt_1f (mul100 (16106127 / 2147483648)) = ''0.8''" by code_simp
  have h: "(0::rat) \<le> 16106127 / 2147483648 \<and> (16106127 / 2147483648 :: rat) \<le> 1" by simp
  have i: "''5. a: 0.8%'' \<in> set (fst (report argsort_stable ?L ?P))"
    unfolding r by simp
  note t = percentages_one_decimal_bounded
    [of argsort_stable ?L ?P "16106127 / 2147483648" False "3 / 4" "16106127 / 2147483648"]
  note t1 = t [THEN conjunct1]
  note t2 = t [THEN conjunct2, THEN conjunct1]
  note t4 = t [THEN conjunct2, THEN conjunct2, THEN conjunct2]
  note 1 = bspec [OF t1 i]
  note 2 = mp [OF t2 f]
  note 3 = mp [OF t4 h]
  show ?thesis
    by (rule conjI [OF r conjI [OF 1 conjI [OF f conjI [OF 2
          conjI [OF h [THEN conjunct1] conjI [OF h [THEN conjunct2] conjI [OF 3 v]]]]]]])
qed

theorem percentages_bounded_counterexample:
  "report argsort_stable [''a'', ''b'', ''c'', ''d'', ''e''] [2, 1, 1 / 2, 0, - 1] =
     ([''Top prediction: a (200.0%)'', ''All predictions:'', ''1. a: 200.0%'', ''2. b: 100.0%'',
       ''3. c: 50.0%'', ''4. d: 0.0%'', ''5. e: -100.0%''], Returned) \<and>
   mul100 2 = Finite False 200 \<and> \<not> (200::rat) \<le> 100 \<and>
   mul100 (- 1) = Finite True 100 \<and>
   mul100 (2 ^ 122) = Infinite False \<and>
   top_line ''a'' (2 ^ 122) = ''Top prediction: a (inf%)''"
proof -
  have a: "report argsort_stable [''a'', ''b'', ''c'', ''d'', ''e''] [2, 1, 1 / 2, 0, - 1] =
     ([''Top prediction: a (200.0%)'', ''All predictions:'', ''1. a: 200.0%'', ''2. b: 100.0%'',
       ''3. c: 50.0%'', ''4. d: 0.0%'', ''5. e: -100.0%''], Returned)"
    by code_simp
  have b: "mul100 2 = Finite False 200" by code_simp
  have c: "\<not> (200::rat) \<le> 100" by simp
  have d: "mul100 (- 1) = Finite True 100" by code_simp
  have e: "mul100 (2 ^ 122) = Infinite False" by code_simp
  have f: "top_line ''a'' (2 ^ 122) = ''Top prediction: a (inf%)''" by code_simp
  show ?thesis
    by (rule conjI [OF a conjI [OF b conjI [OF c conjI [OF d conjI [OF e f]]]]])
qed

text \<open>
  C5. When the label table and the prediction vector have the same length N, the position
  returned by \<open>argmax\<close> and each position selected from \<open>argsort\<close> is below N, and
  on a non-empty vector the report ends without a failed lookup.
\<close>

theorem label_indices_in_range:
  assumes "argsort_ok srt" and "length cs = length ps"
  shows "(\<forall>k. argmax ps = Inr k \<longrightarrow> k < length cs) \<and>
         (\<forall>idx\<in>set (top_indices srt ps). idx < length cs) \<and>
         (ps \<noteq> [] \<longrightarrow> snd (report srt cs ps) = Returned)"
proof (intro conjI allI impI ballI)
  fix k assume "argmax ps = Inr k"
  then show "k < length cs" using argmax_is_Max[of ps k] assms(2) by simp
next
  fix idx assume "idx \<in> set (top_indices srt ps)"
  then show "idx < length cs" using top_indices_in_range[OF assms(1)] assms(2) by simp
next
  assume ne: "ps \<noteq> []"
  have le: "length ps \<le> length cs" using assms(2) by simp
  from report_in_range[OF assms(1) ne le] show "snd (report srt cs ps) = Returned"
    by (metis snd_conv)
qed

theorem label_indices_in_range_witness:
  "argsort_ok argsort_stable \<and>
   length [''a'', ''b'', ''c'', ''d'', ''e''] = length [1 / 2, 1 / 4, 1 / 8, 1 / 16, 1 / 16 :: rat] \<and>
   argmax [1 / 2, 1 / 4, 1 / 8, 1 / 16, 1 / 16] = Inr 0 \<and> (0::nat) < 5 \<and>
   top_indices argsort_stable [1 / 2, 1 / 4, 1 / 8, 1 / 16, 1 / 16] = [0, 1, 2, 4, 3] \<and>
   list_all (\<lambda>idx. idx < length [''a'', ''b'', ''c'', ''d'', ''e'']) [0, 1, 2, 4, 3] \<and>
   snd (report argsort_stable [''a'', ''b'', ''c'', ''d'', ''e'']
          [1 / 2, 1 / 4, 1 / 8, 1 / 16, 1 / 16]) = Returned"
proof -
  have a: "argmax [1 / 2, 1 / 4, 1 / 8, 1 / 16, 1 / 16] = Inr 0" by code_simp
  have t: "top_indices argsort_stable [1 / 2, 1 / 4, 1 / 8, 1 / 16, 1 / 16] = [0, 1, 2, 4, 3]"
    by code_simp
  have l: "length [''a'', ''b'', ''c'', ''d'', ''e''] = length [1 / 2, 1 / 4, 1 / 8, 1 / 16, 1 / 16 :: rat]"
    by simp
  from label_indices_in_range [OF argsort_stable_ok l] a t argsort_stable_ok
  show ?thesis by simp
qed

text \<open>
  C6. In a run that returns, the ranked lines are those of the selected positions in
  order, and the scores at these positions are the first five entries of the prediction
  vector sorted in descending order (all of them when there are fewer than five): they
  are non-increasing and they are the largest entries.
\<close>

theorem top_five_descending_and_largest:
  assumes "argsort_ok srt" and "report srt cs ps = (out, Returned)"
  shows "drop 2 out = ranked_lines cs ps (enumerate 1 (top_indices srt ps)) \<and>
         map (\<lambda>idx. ps ! idx) (top_indices srt ps) = take 5 (rev (sort ps)) \<and>
         sorted (rev (map (\<lambda>idx. ps ! idx) (top_indices srt ps))) \<and>
         length (top_indices srt ps) = min 5 (length ps)"
proof -
  from assms(2) obtain k where
    out: "out = top_line (cs ! k) (ps ! k) # ''All predictions:'' #
             ranked_lines cs ps (enumerate 1 (top_indices srt ps))"
    by (rule report_Returned)
  have a: "drop 2 out = ranked_lines cs ps (enumerate 1 (top_indices srt ps))"
    by (simp add: out)
  have b: "map (\<lambda>idx. ps ! idx) (top_indices srt ps) = take 5 (rev (sort ps))"
    by (rule top_indices_scores[OF assms(1)])
  have "rev (take 5 (rev (sort ps))) = drop (length ps - 5) (sort ps)"
    by (simp add: rev_take)
  then have c: "sorted (rev (map (\<lambda>idx. ps ! idx) (top_indices srt ps)))"
    by (simp only: b) (simp add: sorted_wrt_drop)
  show ?thesis using a b c length_top_indices[OF assms(1)] by blast
qed

theorem top_five_descending_and_largest_witness:
  "argsort_ok argsort_stable \<and>
   report argsort_stable [''a'', ''b'', ''c'', ''d'', ''e'', ''f'']
       [1 / 16, 1 / 2, 1 / 32, 1 / 8, 1 / 4, 1 / 32] =
     ([''Top prediction: b (50.0%)'', ''All predictions:'',
       ''1. b: 50.0%'', ''2. e: 25.0%'', ''3. d: 12.5%'', ''4. a: 6.2%'', ''5. f: 3.1%''],
      Returned) \<and>
   top_indices argsort_stable [1 / 16, 1 / 2, 1 / 32, 1 / 8, 1 / 4, 1 / 32] = [1, 4, 3, 0, 5] \<and>
   take 5 (rev (sort [1 / 16, 1 / 2, 1 / 32, 1 / 8, 1 / 4, 1 / 32 :: rat])) =
     [1 / 2, 1 / 4, 1 / 8, 1 / 16, 1 / 32]"
proof -
  have r: "report argsort_stable [''a'', ''b'', ''c'', ''d'', ''e'', ''f'']
       [1 / 16, 1 / 2, 1 / 32, 1 / 8, 1 / 4, 1 / 32] =
     ([''Top prediction: b (50.0%)'', ''All predictions:'',
       ''1. b: 50.0%'', ''2. e: 25.0%'', ''3. d: 12.5%'', ''4. a: 6.2%'', ''5. f: 3.1%''],
      Returned)"
    by code_simp
  have t: "top_indices argsort_stable [1 / 16, 1 / 2, 1 / 32, 1 / 8, 1 / 4, 1 / 32] = [1, 4, 3, 0, 5]"
    by code_simp
  from top_five_descending_and_largest [OF argsort_stable_ok r] r t argsort_stable_ok
  show ?thesis by simp
qed

text \<open>
  C7. Called without an image path (\<open>sys.argv\<close> holds the script name only, or
  nothing), the program prints exactly \<open>Error: No image path provided\<close> and exits with
  code 1, whatever the installation is.
\<close>

theorem no_argument_error:
  "length argv < 2 \<Longrightarrow> main srt e argv = ([''Error: No image path provided''], 1)"
  by (simp add: main_def)

theorem no_argument_error_witness:
  "length [''predict_spring.py''] < 2 \<and>
   main argsort_stable example_env [''predict_spring.py''] =
     ([''Error: No image path provided''], 1)"
  using no_argument_error [of "[''predict_spring.py'']" argsort_stable example_env] by simp

text \<open>
  C8, as amended. When the decoder gives nothing for the image path, the program exits
  with code 1, and when the model and the label file have loaded it prints exactly
  \<open>Error: Could not read image\<close>. The claim as stated fails when the model or the
  label file does not load: both are loaded before the image is read, so that their
  failure is reported through the generic handler and the image is never looked at.
\<close>

theorem unreadable_image_error:
  assumes "2 \<le> length argv" and "imread e (argv ! 1) = None"
  shows "snd (main srt e argv) = 1 \<and>
         (saved_model e = Inr sg \<and> class_file e = Inr cs \<longrightarrow>
            main srt e argv = ([''Error: Could not read image''], 1))"
  using assms by (auto simp: main_def predict_image_def split: sum.splits)

theorem unreadable_image_error_witness:
  "2 \<le> length [''predict_spring.py'', ''missing.jpg''] \<and>
   imread example_env ([''predict_spring.py'', ''missing.jpg''] ! 1) = None \<and>
   saved_model example_env = Inr () \<and>
   class_file example_env = Inr [''a'', ''b'', ''c'', ''d'', ''e''] \<and>
   snd (main argsort_stable example_env [''predict_spring.py'', ''missing.jpg'']) = 1 \<and>
   main argsort_stable example_env [''predict_spring.py'', ''missing.jpg''] =
     ([''Error: Could not read image''], 1)"
proof -
  have a: "2 \<le> length [''predict_spring.py'', ''missing.jpg'']" by simp
  have b: "imread example_env ([''predict_spring.py'', ''missing.jpg''] ! 1) = None"
    by (simp add: example_env_def)
  have c: "saved_model example_env = Inr ()" by (simp add: example_env_def)
  have d: "class_file example_env = Inr [''a'', ''b'', ''c'', ''d'', ''e'']"
    by (simp add: example_env_def)
  note t = unreadable_image_error [OF a b, of argsort_stable "()" "[''a'', ''b'', ''c'', ''d'', ''e'']"]
  from t c d have "snd (main argsort_stable example_env [''predict_spring.py'', ''missing.jpg'']) = 1 \<and>
     main argsort_stable example_env [''predict_spring.py'', ''missing.jpg''] =
       ([''Error: Could not read image''], 1)"
    by blast
  with a b c d show ?thesis by blast
qed

theorem unreadable_image_counterexample:
  "imread (example_env\<lparr>saved_model := Inl ''SavedModel file does not exist at: saved_model''\<rparr>)
     ([''predict_spring.py'', ''missing.jpg''] ! 1) = None \<and>
   main argsort_stable
     (example_env\<lparr>saved_model := Inl ''SavedModel file does not exist at: saved_model''\<rparr>)
     [''predict_spring.py'', ''missing.jpg''] =
     ([''Error: SavedModel file does not exist at: saved_model''], 1) \<and>
   main argsort_stable
     (example_env\<lparr>saved_model := Inl ''SavedModel file does not exist at: saved_model''\<rparr>)
     [''predict_spring.py'', ''missing.jpg''] \<noteq> ([''Error: Could not read image''], 1)"
  by (simp add: main_def predict_image_def example_env_def)

text \<open>
  C9. With an image path given, an exception raised by loading the model, by loading the
  label file, by the preprocessing, by the forward pass, or by the report (and so any
  exception that \<open>predict_image\<close> raises) makes the program print \<open>Error: \<close>
  followed by the text of the exception, after whatever was printed before, and exit
  with code 1.
\<close>

theorem pipeline_exception_error:
  assumes "2 \<le> length argv"
  shows "(saved_model e = Inl x \<longrightarrow> main srt e argv = ([''Error: '' @ x], 1)) \<and>
         (saved_model e = Inr sg \<and> class_file e = Inl x \<longrightarrow>
            main srt e argv = ([''Error: '' @ x], 1)) \<and>
         (saved_model e = Inr sg \<and> class_file e = Inr cs \<and> imread e (argv ! 1) = Some img \<and>
          preprocess e img = Inl x \<longrightarrow> main srt e argv = ([''Error: '' @ x], 1)) \<and>
         (saved_model e = Inr sg \<and> class_file e = Inr cs \<and> imread e (argv ! 1) = Some img \<and>
          preprocess e img = Inr t \<and> infer e sg t = Inl x \<longrightarrow>
            main srt e argv = ([''Error: '' @ x], 1)) \<and>
         (saved_model e = Inr sg \<and> class_file e = Inr cs \<and> imread e (argv ! 1) = Some img \<and>
          preprocess e img = Inr t \<and> infer e sg t = Inr ps \<and> report srt cs ps = (out, Raised x) \<longrightarrow>
            main srt e argv = (out @ [''Error: '' @ x], 1)) \<and>
         (predict_image srt e (argv ! 1) = (out, Raised x) \<longrightarrow>
            main srt e argv = (out @ [''Error: '' @ x], 1))"
  using assms by (auto simp: main_def predict_image_def)

theorem pipeline_exception_error_witness:
  "2 \<le> length [''predict_spring.py'', ''dish.jpg''] \<and>
   main argsort_stable (example_env\<lparr>saved_model := Inl ''no model''\<rparr>)
     [''predict_spring.py'', ''dish.jpg''] = ([''Error: no model''], 1) \<and>
   main argsort_stable (example_env\<lparr>class_file := Inl ''no labels''\<rparr>)
     [''predict_spring.py'', ''dish.jpg''] = ([''Error: no labels''], 1) \<and>
   main argsort_stable (example_env\<lparr>preprocess := \<lambda>_. Inl ''bad image''\<rparr>)
     [''predict_spring.py'', ''dish.jpg''] = ([''Error: bad image''], 1) \<and>
   main argsort_stable (example_env\<lparr>infer := \<lambda>_ _. Inl ''inference failed''\<rparr>)
     [''predict_spring.py'', ''dish.jpg''] = ([''Error: inference failed''], 1) \<and>
   main argsort_stable (example_env\<lparr>infer := \<lambda>_ _. Inr []\<rparr>)
     [''predict_spring.py'', ''dish.jpg''] =
       ([''Error: attempt to get argmax of an empty sequence''], 1)"
proof -
  let ?argv = "[''predict_spring.py'', ''dish.jpg'']"
  have two: "2 \<le> length ?argv" by simp
  note t = pipeline_exception_error [OF two]
  have a: "main argsort_stable (example_env\<lparr>saved_model := Inl ''no model''\<rparr>) ?argv =
      ([''Error: '' @ ''no model''], 1)"
    using t [where e = "example_env\<lparr>saved_model := Inl ''no model''\<rparr>" and x = "''no model''"]
    by simp
  have b: "main argsort_stable (example_env\<lparr>class_file := Inl ''no labels''\<rparr>) ?argv =
      ([''Error: '' @ ''no labels''], 1)"
    using t [where e = "example_env\<lparr>class_file := Inl ''no labels''\<rparr>" and x = "''no labels''"
        and sg = "()"]
    by (simp add: example_env_def)
  have c: "main argsort_stable (example_env\<lparr>preprocess := \<lambda>_. Inl ''bad image''\<rparr>) ?argv =
      ([''Error: '' @ ''bad image''], 1)"
    using t [where e = "example_env\<lparr>preprocess := \<lambda>_. Inl ''bad image''\<rparr>" and x = "''bad image''"
        and sg = "()" and cs = "[''a'', ''b'', ''c'', ''d'', ''e'']" and img = "()"]
    by (simp add: example_env_def)
  have d: "main argsort_stable (example_env\<lparr>infer := \<lambda>_ _. Inl ''inference failed''\<rparr>) ?argv =
      ([''Error: '' @ ''inference failed''], 1)"
    using t [where e = "example_env\<lparr>infer := \<lambda>_ _. Inl ''inference failed''\<rparr>"
        and x = "''inference failed''"
        and sg = "()" and cs = "[''a'', ''b'', ''c'', ''d'', ''e'']" and img = "()" and t = "()"]
    by (simp add: example_env_def)
  have e: "main argsort_stable (example_env\<lparr>infer := \<lambda>_ _. Inr []\<rparr>) ?argv =
      ([] @ [''Error: '' @ ''attempt to get argmax of an empty sequence''], 1)"
    using t [where e = "example_env\<lparr>infer := \<lambda>_ _. Inr []\<rparr>"
        and x = "''attempt to get argmax of an empty sequence''" and srt = argsort_stable
        and sg = "()" and cs = "[''a'', ''b'', ''c'', ''d'', ''e'']" and img = "()" and t = "()"
        and ps = "[]" and out = "[]"]
    by (simp add: example_env_def report_empty)
  show ?thesis using two a b c d e by simp
qed

text \<open>
  C10. In a run that returns, the header is followed by one ranked line for each selected
  position, and there are min 5 N of them for a prediction vector of length N: with fewer
  than five classes the program prints N ranked lines and fewer than seven lines in all,
  and it prints seven lines exactly when there are at least five classes.
\<close>

theorem fewer_than_five_classes:
  assumes "argsort_ok srt" and "report srt cs ps = (out, Returned)"
  shows "out ! 1 = ''All predictions:'' \<and>
         drop 2 out = ranked_lines cs ps (enumerate 1 (top_indices srt ps)) \<and>
         length (drop 2 out) = min 5 (length ps) \<and>
         (length ps < 5 \<longrightarrow> length (drop 2 out) = length ps \<and> length out < 7) \<and>
         (length out = 7 \<longleftrightarrow> 5 \<le> length ps)"
proof -
  from assms(2) obtain k where
    out: "out = top_line (cs ! k) (ps ! k) # ''All predictions:'' #
             ranked_lines cs ps (enumerate 1 (top_indices srt ps))"
    by (rule report_Returned)
  have len: "length out = 2 + min 5 (length ps)"
    by (rule report_Returned_length[OF assms])
  have a: "out ! 1 = ''All predictions:''" by (simp add: out)
  have b: "drop 2 out = ranked_lines cs ps (enumerate 1 (top_indices srt ps))"
    by (simp add: out)
  have c: "length (drop 2 out) = min 5 (length ps)" using len by simp
  have d: "length ps < 5 \<longrightarrow> length (drop 2 out) = length ps \<and> length out < 7"
    using len by simp
  have e: "length out = 7 \<longleftrightarrow> 5 \<le> length ps" using len by auto
  show ?thesis using a b c d e by blast
qed

theorem fewer_than_five_classes_witness:
  "argsort_ok argsort_stable \<and>
   report argsort_stable [''a'', ''b'', ''c''] [1 / 4, 1 / 2, 1 / 4] =
     ([''Top prediction: b (50.0%)'', ''All predictions:'',
       ''1. b: 50.0%'', ''2. c: 25.0%'', ''3. a: 25.0%''], Returned) \<and>
   length [1 / 4, 1 / 2, 1 / 4 :: rat] < 5 \<and>
   length (drop 2 [''Top prediction: b (50.0%)'', ''All predictions:'',
       ''1. b: 50.0%'', ''2. c: 25.0%'', ''3. a: 25.0%'']) = length [1 / 4, 1 / 2, 1 / 4 :: rat] \<and>
   length [''Top prediction: b (50.0%)'', ''All predictions:'',
       ''1. b: 50.0%'', ''2. c: 25.0%'', ''3. a: 25.0%''] < 7"
proof -
  have r: "report argsort_stable [''a'', ''b'', ''c''] [1 / 4, 1 / 2, 1 / 4] =
     ([''Top prediction: b (50.0%)'', ''All predictions:'',
       ''1. b: 50.0%'', ''2. c: 25.0%'', ''3. a: 25.0%''], Returned)"
    by code_simp
  have s: "length [1 / 4, 1 / 2, 1 / 4 :: rat] < 5" by simp
  note t = fewer_than_five_classes [OF argsort_stable_ok r]
  from t s have "length (drop 2 [''Top prediction: b (50.0%)'', ''All predictions:'',
       ''1. b: 50.0%'', ''2. c: 25.0%'', ''3. a: 25.0%'']) = length [1 / 4, 1 / 2, 1 / 4 :: rat] \<and>
     length [''Top prediction: b (50.0%)'', ''All predictions:'',
       ''1. b: 50.0%'', ''2. c: 25.0%'', ''3. a: 25.0%''] < 7"
    by blast
  with r s argsort_stable_ok show ?thesis by blast
qed

end
